theory Spec2Isabelle
  imports Main
begin

section \<open>Data model of server.js\<close>

text \<open>
  A stored user object, as the two strategy callbacks build it. A property that the
  object does not have reads as \<open>undefined\<close> in JavaScript: \<open>None\<close> here
  (a Google user has no \<open>githubId\<close>, a GitHub user no \<open>googleId\<close>). The field
  \<open>id\<close> is called \<open>user_id\<close>, since \<open>id\<close> is the identity function of HOL.
  Dates are milliseconds since the epoch.
\<close>

record user =
  user_id :: string
  googleId :: "string option"
  githubId :: "string option"
  email :: "string option"
  name :: "string option"
  avatar :: string
  provider :: string
  accessToken :: string
  refreshToken :: "string option"
  createdAt :: int
  lastLogin :: int

text \<open>
  The profile that passport hands to a verify callback. \<open>emails\<close> and \<open>photos\<close>
  are arrays of objects with a \<open>value\<close> field, or \<open>undefined\<close> when the provider
  gave none; the lists here hold the \<open>value\<close>s.
\<close>

record profile =
  profile_id :: "string option"
  displayName :: "string option"
  username :: "string option"
  emails :: "string list option"
  photos :: "string list option"

text \<open>
  What a callback reads from outside the program while it runs: the result of
  \<open>crypto.randomUUID()\<close> and of the first and the second \<open>new Date()\<close> it evaluates.
\<close>

record env =
  randomUUID :: string
  date1 :: int
  date2 :: int

datatype js_error = TypeError

datatype strategy = GoogleStrategy | GitHubStrategy

datatype call = Call strategy env string "string option" profile

subsection \<open>The users Map\<close>

text \<open>
  \<open>const users = new Map()\<close>: a JavaScript Map keeps its entries in insertion order,
  \<open>set\<close> on a key it has replaces the value where it stands, and \<open>set\<close> on a new key
  appends. \<open>Array.from(users.values()).find(p)\<close> is the first value, in that order,
  that satisfies \<open>p\<close>.
\<close>

type_synonym users = "(string \<times> user) list"

definition users_empty :: users where
  "users_empty = []"

fun users_set :: "users \<Rightarrow> string \<Rightarrow> user \<Rightarrow> users" where
  "users_set [] k v = [(k, v)]"
| "users_set ((k', v') # st) k v =
     (if k' = k then (k, v) # st else (k', v') # users_set st k v)"

fun users_get :: "users \<Rightarrow> string \<Rightarrow> user option" where
  "users_get [] k = None"
| "users_get ((k', v') # st) k = (if k' = k then Some v' else users_get st k)"

definition users_values :: "users \<Rightarrow> user list" where
  "users_values st = map snd st"

text \<open>
  \<open>existingUser\<close> is the object held by the Map, not a copy: assigning to its fields
  changes the entry that \<open>find\<close> returned, the first one that satisfies the predicate.
\<close>

fun assign_found :: "(user \<Rightarrow> bool) \<Rightarrow> (user \<Rightarrow> user) \<Rightarrow> users \<Rightarrow> users" where
  "assign_found P f [] = []"
| "assign_found P f ((k, u) # st) =
     (if P u then (k, f u) # st else (k, u) # assign_found P f st)"

subsection \<open>Session codec\<close>

text \<open>
  \<open>done(err, value)\<close> is a result: \<open>Inl err\<close> or \<open>Inr value\<close>.
  \<open>users.get(id)\<close> of a key the Map does not have is \<open>undefined\<close>.
\<close>

definition serializeUser :: "user \<Rightarrow> js_error + string" where
  "serializeUser u = Inr (user_id u)"

definition deserializeUser :: "users \<Rightarrow> string \<Rightarrow> js_error + user option" where
  "deserializeUser st i = Inr (users_get st i)"

subsection \<open>Strategy verify callbacks\<close>

text \<open>
  \<open>a || b\<close> on values that are a string or \<open>undefined\<close>: the empty string and
  \<open>undefined\<close> are falsy.
\<close>

definition truthy :: "string option \<Rightarrow> bool" where
  "truthy v = (case v of None \<Rightarrow> False | Some s \<Rightarrow> s \<noteq> [])"

definition js_or :: "string option \<Rightarrow> string option \<Rightarrow> string option" where
  "js_or a b = (if truthy a then a else b)"

text \<open>
  \<open>xs[0].value\<close> where \<open>xs\<close> may be \<open>undefined\<close>: reading index 0 of \<open>undefined\<close>
  throws a TypeError, and so does reading \<open>value\<close> of the \<open>undefined\<close> that index 0
  of an empty array gives.
\<close>

definition first_value :: "string list option \<Rightarrow> js_error + string" where
  "first_value xs =
     (case xs of None \<Rightarrow> Inl TypeError
      | Some [] \<Rightarrow> Inl TypeError
      | Some (x # _) \<Rightarrow> Inr x)"

text \<open>
  The Google callback. Whatever the \<open>try\<close> block throws ends in \<open>done(error, null)\<close>
  before \<open>users.set\<close> is reached, so the Map is as it was.
\<close>

definition google_verify ::
  "env \<Rightarrow> string \<Rightarrow> string option \<Rightarrow> profile \<Rightarrow> users \<Rightarrow> users \<times> (js_error + user)" where
  "google_verify e at rt p st =
     (case find (\<lambda>u. googleId u = profile_id p) (users_values st) of
        Some existingUser \<Rightarrow>
          (assign_found (\<lambda>u. googleId u = profile_id p)
             (\<lambda>u. u\<lparr>lastLogin := date1 e, accessToken := at\<rparr>) st,
           Inr (existingUser\<lparr>lastLogin := date1 e, accessToken := at\<rparr>))
      | None \<Rightarrow>
          (case first_value (emails p) of
             Inl err \<Rightarrow> (st, Inl err)
           | Inr em \<Rightarrow>
               (case first_value (photos p) of
                  Inl err \<Rightarrow> (st, Inl err)
                | Inr ph \<Rightarrow>
                    (users_set st (randomUUID e)
                       \<lparr>user_id = randomUUID e, googleId = profile_id p, githubId = None,
                        email = Some em, name = displayName p, avatar = ph,
                        provider = ''google'', accessToken = at, refreshToken = rt,
                        createdAt = date1 e, lastLogin = date2 e\<rparr>,
                     Inr \<lparr>user_id = randomUUID e, googleId = profile_id p, githubId = None,
                        email = Some em, name = displayName p, avatar = ph,
                        provider = ''google'', accessToken = at, refreshToken = rt,
                        createdAt = date1 e, lastLogin = date2 e\<rparr>))))"

text \<open>
  The GitHub callback: \<open>profile.emails ? profile.emails[0].value : null\<close> guards the
  missing array (an empty array is truthy and still throws), and the name falls back
  to \<open>profile.username\<close>.
\<close>

definition github_email :: "string list option \<Rightarrow> js_error + string option" where
  "github_email xs =
     (case xs of None \<Rightarrow> Inr None
      | Some [] \<Rightarrow> Inl TypeError
      | Some (x # _) \<Rightarrow> Inr (Some x))"

definition github_verify ::
  "env \<Rightarrow> string \<Rightarrow> string option \<Rightarrow> profile \<Rightarrow> users \<Rightarrow> users \<times> (js_error + user)" where
  "github_verify e at rt p st =
     (case find (\<lambda>u. githubId u = profile_id p) (users_values st) of
        Some existingUser \<Rightarrow>
          (assign_found (\<lambda>u. githubId u = profile_id p)
             (\<lambda>u. u\<lparr>lastLogin := date1 e, accessToken := at\<rparr>) st,
           Inr (existingUser\<lparr>lastLogin := date1 e, accessToken := at\<rparr>))
      | None \<Rightarrow>
          (case github_email (emails p) of
             Inl err \<Rightarrow> (st, Inl err)
           | Inr em \<Rightarrow>
               (case first_value (photos p) of
                  Inl err \<Rightarrow> (st, Inl err)
                | Inr ph \<Rightarrow>
                    (users_set st (randomUUID e)
                       \<lparr>user_id = randomUUID e, googleId = None, githubId = profile_id p,
                        email = em, name = js_or (displayName p) (username p), avatar = ph,
                        provider = ''github'', accessToken = at, refreshToken = rt,
                        createdAt = date1 e, lastLogin = date2 e\<rparr>,
                     Inr \<lparr>user_id = randomUUID e, googleId = None, githubId = profile_id p,
                        email = em, name = js_or (displayName p) (username p), avatar = ph,
                        provider = ''github'', accessToken = at, refreshToken = rt,
                        createdAt = date1 e, lastLogin = date2 e\<rparr>))))"

text \<open>
  One provider callback, and a sequence of them run one after another on the Map
  (what the spec calls \<open>reconcile\<close>).
\<close>

fun reconcile :: "call \<Rightarrow> users \<Rightarrow> users \<times> (js_error + user)" where
  "reconcile (Call GoogleStrategy e at rt p) st = google_verify e at rt p st"
| "reconcile (Call GitHubStrategy e at rt p) st = github_verify e at rt p st"

fun run_calls :: "call list \<Rightarrow> users \<Rightarrow> users" where
  "run_calls [] st = st"
| "run_calls (c # cs) st = run_calls cs (fst (reconcile c st))"

subsection \<open>The bearer-token gate\<close>

text \<open>
  \<open>s.split(' ')\<close>: the pieces of \<open>s\<close> between single spaces; there is always at least
  one piece, and two spaces in a row give an empty piece. \<open>xs[i]\<close> beyond the end of
  an array is \<open>undefined\<close>.
\<close>

fun split_space :: "string \<Rightarrow> string list" where
  "split_space [] = [[]]"
| "split_space (c # cs) =
     (if c = CHR '' '' then [] # split_space cs
      else (case split_space cs of
              [] \<Rightarrow> [[c]]
            | w # ws \<Rightarrow> (c # w) # ws))"

definition js_index :: "'a list \<Rightarrow> nat \<Rightarrow> 'a option" where
  "js_index xs i = (if i < length xs then Some (xs ! i) else None)"

text \<open>
  The error classes with which \<open>jwt.verify\<close> of the jsonwebtoken package calls back.
  The package is not part of the repository: \<open>authenticateJWT\<close> takes its \<open>verify\<close>
  (with the clock it reads) as a parameter, from the token, which may be
  \<open>undefined\<close>, and the secret to an error or the decoded payload.
\<close>

datatype jwt_error = TokenExpiredError | JsonWebTokenError | NotBeforeError

text \<open>
  What the middleware does with the request: \<open>req.user = user; next()\<close>, or
  \<open>res.status(code).json({ error: message })\<close>.
\<close>

datatype 'c outcome = Next 'c | Status nat string

definition authenticateJWT ::
  "(string option \<Rightarrow> string \<Rightarrow> jwt_error + 'c) \<Rightarrow> string \<Rightarrow> string option \<Rightarrow> 'c outcome" where
  "authenticateJWT jwt_verify secret authorization =
     (case authorization of
        None \<Rightarrow> Status 401 ''Token di accesso richiesto''
      | Some authHeader \<Rightarrow>
          (if authHeader = [] then Status 401 ''Token di accesso richiesto''
           else (case jwt_verify (js_index (split_space authHeader) 1) secret of
                   Inl err \<Rightarrow> Status 403 ''Token non valido''
                 | Inr user \<Rightarrow> Next user)))"

subsection \<open>Predicates on the Map and example inputs\<close>

text \<open>
  What holds of the Map after any sequence of callbacks: every entry is stored under its
  own \<open>id\<close> and no key occurs twice; no user holds a subject id of both providers; no
  two entries hold the same subject id of one provider.
\<close>

definition keys_ok :: "users \<Rightarrow> bool" where
  "keys_ok st \<longleftrightarrow> distinct (map fst st) \<and> (\<forall>(k, u) \<in> set st. user_id u = k)"

definition one_provider :: "users \<Rightarrow> bool" where
  "one_provider st \<longleftrightarrow> (\<forall>(k, u) \<in> set st. googleId u = None \<or> githubId u = None)"

definition links_unique :: "users \<Rightarrow> bool" where
  "links_unique st \<longleftrightarrow>
     (\<forall>(k1, u1) \<in> set st. \<forall>(k2, u2) \<in> set st. \<forall>s.
        (googleId u1 = Some s \<and> googleId u2 = Some s) \<or>
        (githubId u1 = Some s \<and> githubId u2 = Some s) \<longrightarrow> k1 = k2)"

definition users_inv :: "users \<Rightarrow> bool" where
  "users_inv st \<longleftrightarrow> keys_ok st \<and> one_provider st \<and> links_unique st"

text \<open>
  The field a strategy looks a user up by, and the two assignments of the
  \<open>existingUser\<close> branch, for stating facts about both callbacks at once.
\<close>

fun link_of :: "strategy \<Rightarrow> user \<Rightarrow> string option" where
  "link_of GoogleStrategy = googleId"
| "link_of GitHubStrategy = githubId"

definition touch :: "env \<Rightarrow> string \<Rightarrow> user \<Rightarrow> user" where
  "touch e at u = u\<lparr>lastLogin := date1 e, accessToken := at\<rparr>"

text \<open>
  None of the reads with which a callback builds \<open>newUser\<close> throws: the Google one
  reads \<open>profile.emails[0].value\<close> and \<open>profile.photos[0].value\<close>, the GitHub one
  reads \<open>profile.emails[0].value\<close> only when \<open>profile.emails\<close> is there.
\<close>

fun reads_succeed :: "strategy \<Rightarrow> profile \<Rightarrow> bool" where
  "reads_succeed GoogleStrategy p =
     (\<not> isl (first_value (emails p)) \<and> \<not> isl (first_value (photos p)))"
| "reads_succeed GitHubStrategy p =
     (\<not> isl (github_email (emails p)) \<and> \<not> isl (first_value (photos p)))"

text \<open>Example inputs, for evaluating the callbacks.\<close>

definition ann :: profile where
  "ann = \<lparr>profile_id = Some ''123'', displayName = Some ''Ann'', username = None,
          emails = Some [''a@x.com''], photos = Some [''https://x.com/ann.png'']\<rparr>"

definition octo :: profile where
  "octo = \<lparr>profile_id = Some ''123'', displayName = None, username = Some ''octo'',
           emails = None, photos = Some [''https://x.com/octo.png'']\<rparr>"

definition env1 :: env where
  "env1 = \<lparr>randomUUID = ''u1'', date1 = 1000, date2 = 1000\<rparr>"

definition env2 :: env where
  "env2 = \<lparr>randomUUID = ''u2'', date1 = 2000, date2 = 2001\<rparr>"

definition env3 :: env where
  "env3 = \<lparr>randomUUID = ''u3'', date1 = 3000, date2 = 3002\<rparr>"

definition ann_user :: user where
  "ann_user = \<lparr>user_id = ''u1'', googleId = Some ''123'', githubId = None,
               email = Some ''a@x.com'', name = Some ''Ann'', avatar = ''https://x.com/ann.png'',
               provider = ''google'', accessToken = ''ya29.a'', refreshToken = None,
               createdAt = 1000, lastLogin = 1000\<rparr>"

definition octo_user :: user where
  "octo_user = \<lparr>user_id = ''u2'', googleId = None, githubId = Some ''123'',
                email = None, name = Some ''octo'', avatar = ''https://x.com/octo.png'',
                provider = ''github'', accessToken = ''gho_b'', refreshToken = None,
                createdAt = 2000, lastLogin = 2001\<rparr>"

definition two_logins :: "call list" where
  "two_logins = [Call GoogleStrategy env1 ''ya29.a'' None ann,
                 Call GitHubStrategy env2 ''gho_b'' None octo]"

definition ann_renamed :: profile where
  "ann_renamed = \<lparr>profile_id = Some ''123'', displayName = Some ''Annabel'', username = None,
                  emails = Some [''new@x.com''], photos = Some [''https://x.com/new.png'']\<rparr>"

text \<open>
  A stand-in for \<open>jwt.verify\<close>, for evaluating the gate: it accepts one token, reports
  one as expired and rejects everything else, \<open>undefined\<close> included.
\<close>

definition example_verify :: "string option \<Rightarrow> string \<Rightarrow> jwt_error + string" where
  "example_verify token secret =
     (if token = Some ''good.jwt'' \<and> secret = ''s3cret'' then Inr ''ann''
      else if token = Some ''old.jwt'' \<and> secret = ''s3cret'' then Inl TokenExpiredError
      else Inl JsonWebTokenError)"

section \<open>The users Map: basic facts\<close>

lemma users_get_set: "users_get (users_set st k v) k' = (if k' = k then Some v else users_get st k')"
  by (induction st) auto

lemma users_get_in_set: "users_get st k = Some u \<Longrightarrow> (k, u) \<in> set st"
  by (induction st) (auto split: if_splits)

lemma keys_users_set:
  "map fst (users_set st k v) = (if k \<in> fst ` set st then map fst st else map fst st @ [k])"
  by (induction st) (force split: if_splits)+

lemma set_users_set: "x \<in> set (users_set st k v) \<Longrightarrow> x = (k, v) \<or> x \<in> set st"
  by (induction st) (auto split: if_splits)

lemma keys_assign_found: "map fst (assign_found P f st) = map fst st"
  by (induction st) auto

lemma set_assign_found:
  "(k, u') \<in> set (assign_found P f st) \<Longrightarrow> \<exists>u. (k, u) \<in> set st \<and> (u' = u \<or> u' = f u)"
  by (induction st) (fastforce split: if_splits)+

lemma find_None_values: "find P (users_values st) = None \<Longrightarrow> (k, u) \<in> set st \<Longrightarrow> \<not> P u"
  by (auto simp: users_values_def find_None_iff)

lemma find_Some_values: "find P (users_values st) = Some u \<Longrightarrow> P u \<and> (\<exists>k. (k, u) \<in> set st)"
  by (induction st) (auto simp: users_values_def split: if_splits)

lemma find_assign_found:
  "find P (users_values st) = Some u \<Longrightarrow> P (f u) \<Longrightarrow>
   find P (users_values (assign_found P f st)) = Some (f u)"
  by (induction st) (auto simp: users_values_def split: if_splits)

lemma find_users_set:
  "find P (users_values st) = None \<Longrightarrow> P v \<Longrightarrow>
   find P (users_values (users_set st k v)) = Some v"
  by (induction st) (auto simp: users_values_def split: if_splits)

section \<open>What every reachable Map satisfies\<close>

lemma keys_ok_set:
  "keys_ok st \<Longrightarrow> user_id v = k \<Longrightarrow> keys_ok (users_set st k v)"
  unfolding keys_ok_def
  by (auto simp: keys_users_set dest: set_users_set)

lemma keys_ok_assign:
  "keys_ok st \<Longrightarrow> (\<And>u. user_id (f u) = user_id u) \<Longrightarrow> keys_ok (assign_found P f st)"
  unfolding keys_ok_def
  by (auto simp: keys_assign_found dest!: set_assign_found)

lemma one_provider_set:
  "one_provider st \<Longrightarrow> googleId v = None \<or> githubId v = None \<Longrightarrow> one_provider (users_set st k v)"
  unfolding one_provider_def
  by (fastforce dest: set_users_set)

lemma one_provider_assign:
  "one_provider st \<Longrightarrow> (\<And>u. googleId (f u) = googleId u) \<Longrightarrow> (\<And>u. githubId (f u) = githubId u) \<Longrightarrow>
   one_provider (assign_found P f st)"
  unfolding one_provider_def
  by (auto dest!: set_assign_found)

lemma links_unique_assign:
  assumes "links_unique st" and "\<And>u. googleId (f u) = googleId u" and "\<And>u. githubId (f u) = githubId u"
  shows "links_unique (assign_found P f st)"
  unfolding links_unique_def
proof (clarify)
  fix k1 u1 k2 u2 s
  assume m1: "(k1, u1) \<in> set (assign_found P f st)" and m2: "(k2, u2) \<in> set (assign_found P f st)"
    and eq: "googleId u1 = Some s \<and> googleId u2 = Some s \<or> githubId u1 = Some s \<and> githubId u2 = Some s"
  from m1 obtain v1 where v1: "(k1, v1) \<in> set st" "u1 = v1 \<or> u1 = f v1"
    using set_assign_found by blast
  from m2 obtain v2 where v2: "(k2, v2) \<in> set st" "u2 = v2 \<or> u2 = f v2"
    using set_assign_found by blast
  from v1(2) have g1: "googleId u1 = googleId v1" "githubId u1 = githubId v1"
    using assms(2,3) by auto
  from v2(2) have g2: "googleId u2 = googleId v2" "githubId u2 = githubId v2"
    using assms(2,3) by auto
  from eq g1 g2 have "googleId v1 = Some s \<and> googleId v2 = Some s \<or> githubId v1 = Some s \<and> githubId v2 = Some s"
    by simp
  with assms(1) v1(1) v2(1) show "k1 = k2"
    unfolding links_unique_def by blast
qed

lemma links_unique_set:
  assumes "links_unique st"
    and g: "\<And>k u s. (k, u) \<in> set st \<Longrightarrow> googleId v = Some s \<Longrightarrow> googleId u \<noteq> Some s"
    and h: "\<And>k u s. (k, u) \<in> set st \<Longrightarrow> githubId v = Some s \<Longrightarrow> githubId u \<noteq> Some s"
  shows "links_unique (users_set st k v)"
  unfolding links_unique_def
proof (clarify)
  fix k1 u1 k2 u2 s
  assume m1: "(k1, u1) \<in> set (users_set st k v)" and m2: "(k2, u2) \<in> set (users_set st k v)"
    and eq: "googleId u1 = Some s \<and> googleId u2 = Some s \<or> githubId u1 = Some s \<and> githubId u2 = Some s"
  from m1 have c1: "(k1, u1) = (k, v) \<or> (k1, u1) \<in> set st" by (rule set_users_set)
  from m2 have c2: "(k2, u2) = (k, v) \<or> (k2, u2) \<in> set st" by (rule set_users_set)
  from c1 c2 eq g h assms(1) show "k1 = k2"
    unfolding links_unique_def by (elim disjE) (blast+)
qed

lemma google_verify_inv:
  assumes "users_inv st"
  shows "users_inv (fst (google_verify e at rt p st))"
proof (cases "find (\<lambda>u. googleId u = profile_id p) (users_values st)")
  case (Some u)
  then show ?thesis
    using assms unfolding users_inv_def google_verify_def
    by (simp add: keys_ok_assign one_provider_assign links_unique_assign)
next
  case None
  have fresh: "\<And>k u. (k, u) \<in> set st \<Longrightarrow> googleId u \<noteq> profile_id p"
    using find_None_values [OF None] by blast
  show ?thesis
    using assms None fresh unfolding users_inv_def google_verify_def
    by (auto split: sum.splits intro!: keys_ok_set one_provider_set links_unique_set)
qed

lemma github_verify_inv:
  assumes "users_inv st"
  shows "users_inv (fst (github_verify e at rt p st))"
proof (cases "find (\<lambda>u. githubId u = profile_id p) (users_values st)")
  case (Some u)
  then show ?thesis
    using assms unfolding users_inv_def github_verify_def
    by (simp add: keys_ok_assign one_provider_assign links_unique_assign)
next
  case None
  have fresh: "\<And>k u. (k, u) \<in> set st \<Longrightarrow> githubId u \<noteq> profile_id p"
    using find_None_values [OF None] by blast
  show ?thesis
    using assms None fresh unfolding users_inv_def github_verify_def
    by (auto split: sum.splits intro!: keys_ok_set one_provider_set links_unique_set)
qed

lemma reconcile_inv: "users_inv st \<Longrightarrow> users_inv (fst (reconcile c st))"
  by (cases "(c, st)" rule: reconcile.cases) (simp_all add: google_verify_inv github_verify_inv)

lemma users_inv_empty: "users_inv users_empty"
  by (simp add: users_inv_def keys_ok_def one_provider_def links_unique_def users_empty_def)

lemma run_calls_inv: "users_inv st \<Longrightarrow> users_inv (run_calls cs st)"
  by (induction cs arbitrary: st) (simp_all add: reconcile_inv)

lemma reachable_inv: "users_inv (run_calls cs users_empty)"
  by (simp add: run_calls_inv users_inv_empty)

section \<open>The three outcomes of a callback\<close>

lemma touch_simps [simp]:
  "user_id (touch e at u) = user_id u"
  "googleId (touch e at u) = googleId u"
  "githubId (touch e at u) = githubId u"
  "email (touch e at u) = email u"
  "name (touch e at u) = name u"
  "avatar (touch e at u) = avatar u"
  "lastLogin (touch e at u) = date1 e"
  "link_of s (touch e at u) = link_of s u"
  by (cases s; simp add: touch_def)+

lemma reconcile_existing:
  assumes "find (\<lambda>u. link_of s u = profile_id p) (users_values st) = Some u0"
  shows "reconcile (Call s e at rt p) st =
           (assign_found (\<lambda>u. link_of s u = profile_id p) (touch e at) st, Inr (touch e at u0))"
  using assms
  by (cases s) (simp_all add: google_verify_def github_verify_def touch_def [abs_def])

lemma reconcile_created:
  assumes "find (\<lambda>u. link_of s u = profile_id p) (users_values st) = None"
    and "reconcile (Call s e at rt p) st = (st', Inr u)"
  shows "st' = users_set st (randomUUID e) u \<and> user_id u = randomUUID e \<and>
         link_of s u = profile_id p \<and> lastLogin u = date2 e"
  using assms
  by (cases s) (auto simp: google_verify_def github_verify_def split: sum.splits)

lemma reconcile_failed:
  assumes "reconcile (Call s e at rt p) st = (st', Inl err)"
  shows "st' = st \<and> find (\<lambda>u. link_of s u = profile_id p) (users_values st) = None"
  using assms
  by (cases s) (auto simp: google_verify_def github_verify_def split: sum.splits option.splits)

lemmas example_defs = ann_def octo_def env1_def env2_def ann_user_def octo_user_def
  two_logins_def users_empty_def google_verify_def github_verify_def users_values_def
  first_value_def github_email_def js_or_def truthy_def

lemma two_logins_run: "run_calls two_logins users_empty = [(''u1'', ann_user), (''u2'', octo_user)]"
  by (simp add: example_defs)

section \<open>Uniqueness of provider subject ids\<close>

text \<open>
  C1. After any sequence of Google and GitHub verify callbacks run one after another
  from the empty Map, two users stored under different ids never hold the same Google
  subject id, nor the same GitHub subject id.
\<close>

theorem reconcile_links_unique:
  assumes "users_get (run_calls cs users_empty) k1 = Some a"
    and "users_get (run_calls cs users_empty) k2 = Some b"
    and "k1 \<noteq> k2"
  shows "\<not> (googleId a = Some s \<and> googleId b = Some s) \<and>
         \<not> (githubId a = Some s \<and> githubId b = Some s)"
proof -
  have "links_unique (run_calls cs users_empty)"
    using reachable_inv by (simp add: users_inv_def)
  moreover have "(k1, a) \<in> set (run_calls cs users_empty)" "(k2, b) \<in> set (run_calls cs users_empty)"
    using assms(1,2) by (simp_all add: users_get_in_set)
  ultimately show ?thesis
    using assms(3) unfolding links_unique_def by blast
qed

theorem reconcile_links_unique_witness:
  "users_get (run_calls two_logins users_empty) ''u1'' = Some ann_user \<and>
   users_get (run_calls two_logins users_empty) ''u2'' = Some octo_user \<and>
   ''u1'' \<noteq> ''u2'' \<and>
   \<not> (googleId ann_user = Some ''123'' \<and> googleId octo_user = Some ''123'') \<and>
   \<not> (githubId ann_user = Some ''123'' \<and> githubId octo_user = Some ''123'')"
proof -
  have a: "users_get (run_calls two_logins users_empty) ''u1'' = Some ann_user"
    by (simp add: two_logins_run)
  have b: "users_get (run_calls two_logins users_empty) ''u2'' = Some octo_user"
    by (simp add: two_logins_run)
  have c: "''u1'' \<noteq> ''u2''" by simp
  show ?thesis
    using a b c reconcile_links_unique [OF a b c, of "''123''"] by blast
qed

section \<open>Reconciling twice\<close>

lemma first_call_returns:
  assumes "reads_succeed s p \<or> find (\<lambda>u. link_of s u = profile_id p) (users_values st) \<noteq> None"
  shows "\<exists>st1 u1. reconcile (Call s e at rt p) st = (st1, Inr u1) \<and>
           lastLogin u1 =
             (if find (\<lambda>u. link_of s u = profile_id p) (users_values st) = None
              then date2 e else date1 e)"
proof (cases "find (\<lambda>u. link_of s u = profile_id p) (users_values st)")
  case (Some u0)
  then show ?thesis by (simp add: reconcile_existing)
next
  case None
  with assms have "reads_succeed s p" by simp
  with None show ?thesis
    by (cases s) (auto simp: google_verify_def github_verify_def split: sum.splits)
qed

lemma second_call_finds:
  assumes first: "reconcile (Call s e1 at1 rt1 p) st = (st1, Inr u1)"
    and same: "profile_id p' = profile_id p"
  shows "reconcile (Call s e2 at2 rt2 p') st1 =
           (assign_found (\<lambda>u. link_of s u = profile_id p') (touch e2 at2) st1,
            Inr (touch e2 at2 u1))"
proof -
  let ?P = "\<lambda>u. link_of s u = profile_id p"
  have "find ?P (users_values st1) = Some u1"
  proof (cases "find ?P (users_values st)")
    case (Some u0)
    with first have st1: "st1 = assign_found ?P (touch e1 at1) st" and u1: "u1 = touch e1 at1 u0"
      by (simp_all add: reconcile_existing)
    from find_Some_values [OF Some] have "?P u0" by simp
    with Some show ?thesis
      unfolding st1 u1 by (intro find_assign_found) simp_all
  next
    case None
    from reconcile_created [OF None first]
    have st1: "st1 = users_set st (randomUUID e1) u1" and l: "?P u1"
      by simp_all
    from None l show ?thesis
      unfolding st1 by (rule find_users_set)
  qed
  then show ?thesis
    by (intro reconcile_existing) (simp add: same)
qed

text \<open>
  C2, as the code has it. When the subject is already stored, or the profile has the
  fields that the callback reads to build a new user, the callback returns a user, and
  the same strategy called again on the resulting Map with the same subject id
  (whatever the tokens and the rest of the profile) returns a user with the same id.
  The second call assigns its own \<open>new Date()\<close> to lastLogin: lastLogin does not
  decrease across the two calls exactly when that reading is not behind the one the
  first call stored.
\<close>

theorem reconcile_twice_same_id:
  assumes reads: "reads_succeed s p \<or>
                  find (\<lambda>u. link_of s u = profile_id p) (users_values st) \<noteq> None"
    and same: "profile_id p' = profile_id p"
  shows "\<exists>st1 u1 st2 u2.
           reconcile (Call s e1 at1 rt1 p) st = (st1, Inr u1) \<and>
           reconcile (Call s e2 at2 rt2 p') st1 = (st2, Inr u2) \<and>
           user_id u2 = user_id u1 \<and>
           lastLogin u1 =
             (if find (\<lambda>u. link_of s u = profile_id p) (users_values st) = None
              then date2 e1 else date1 e1) \<and>
           lastLogin u2 = date1 e2 \<and>
           (lastLogin u1 \<le> lastLogin u2 \<longleftrightarrow>
              (if find (\<lambda>u. link_of s u = profile_id p) (users_values st) = None
               then date2 e1 else date1 e1) \<le> date1 e2)"
proof -
  from first_call_returns [OF reads, of e1 at1 rt1]
  obtain st1 u1 where first: "reconcile (Call s e1 at1 rt1 p) st = (st1, Inr u1)"
    and t1: "lastLogin u1 =
             (if find (\<lambda>u. link_of s u = profile_id p) (users_values st) = None
              then date2 e1 else date1 e1)"
    by blast
  from second_call_finds [OF first same, of e2 at2 rt2]
  obtain st2 where second: "reconcile (Call s e2 at2 rt2 p') st1 = (st2, Inr (touch e2 at2 u1))"
    by blast
  show ?thesis
    by (rule exI [of _ st1], rule exI [of _ u1], rule exI [of _ st2],
        rule exI [of _ "touch e2 at2 u1"])
       (simp add: first second t1)
qed

theorem reconcile_twice_same_id_witness:
  "reads_succeed GoogleStrategy ann \<and> reads_succeed GitHubStrategy octo \<and>
   (\<exists>st1 u1 st2 u2.
      reconcile (Call GoogleStrategy env1 ''ya29.a'' None ann) users_empty = (st1, Inr u1) \<and>
      reconcile (Call GoogleStrategy env2 ''ya29.c'' None ann) st1 = (st2, Inr u2) \<and>
      user_id u2 = user_id u1 \<and> lastLogin u1 = 1000 \<and> lastLogin u2 = 2000) \<and>
   (\<exists>st1 u1 st2 u2.
      reconcile (Call GitHubStrategy env2 ''gho_b'' None octo) [(''u1'', ann_user)] = (st1, Inr u1) \<and>
      reconcile (Call GitHubStrategy env3 ''gho_d'' None octo) st1 = (st2, Inr u2) \<and>
      user_id u2 = user_id u1 \<and> lastLogin u1 = 2001 \<and> lastLogin u2 = 3000)"
proof -
  have a: "reads_succeed GoogleStrategy ann" "reads_succeed GitHubStrategy octo"
    by (simp_all add: ann_def octo_def first_value_def github_email_def)
  have d: "date2 env1 = 1000" "date1 env2 = 2000" "date2 env2 = 2001" "date1 env3 = 3000"
    by (simp_all add: env1_def env2_def env3_def)
  from a(1) have g: "reads_succeed GoogleStrategy ann \<or>
      find (\<lambda>u. link_of GoogleStrategy u = profile_id ann) (users_values users_empty) \<noteq> None"
    by simp
  from a(2) have h: "reads_succeed GitHubStrategy octo \<or>
      find (\<lambda>u. link_of GitHubStrategy u = profile_id octo) (users_values [(''u1'', ann_user)]) \<noteq> None"
    by simp
  from reconcile_twice_same_id [OF g refl, of env1 "''ya29.a''" None env2 "''ya29.c''" None]
  obtain st1 u1 st2 u2 where
    g1: "reconcile (Call GoogleStrategy env1 ''ya29.a'' None ann) users_empty = (st1, Inr u1)" and
    g2: "reconcile (Call GoogleStrategy env2 ''ya29.c'' None ann) st1 = (st2, Inr u2)" and
    g3: "user_id u2 = user_id u1" and
    g4: "lastLogin u1 =
           (if find (\<lambda>u. link_of GoogleStrategy u = profile_id ann) (users_values users_empty) = None
            then date2 env1 else date1 env1)" and
    g5: "lastLogin u2 = date1 env2"
    by blast
  from g4 g5 have g6: "lastLogin u1 = 1000" "lastLogin u2 = 2000"
    by (simp_all add: d users_values_def users_empty_def ann_user_def ann_def octo_def)
  from reconcile_twice_same_id [OF h refl, of env2 "''gho_b''" None env3 "''gho_d''" None]
  obtain st1' u1' st2' u2' where
    h1: "reconcile (Call GitHubStrategy env2 ''gho_b'' None octo) [(''u1'', ann_user)] = (st1', Inr u1')" and
    h2: "reconcile (Call GitHubStrategy env3 ''gho_d'' None octo) st1' = (st2', Inr u2')" and
    h3: "user_id u2' = user_id u1'" and
    h4: "lastLogin u1' =
           (if find (\<lambda>u. link_of GitHubStrategy u = profile_id octo)
                 (users_values [(''u1'', ann_user)]) = None
            then date2 env2 else date1 env2)" and
    h5: "lastLogin u2' = date1 env3"
    by blast
  from h4 h5 have h6: "lastLogin u1' = 2001" "lastLogin u2' = 3000"
    by (simp_all add: d users_values_def users_empty_def ann_user_def ann_def octo_def)
  have G: "\<exists>st1 u1 st2 u2.
      reconcile (Call GoogleStrategy env1 ''ya29.a'' None ann) users_empty = (st1, Inr u1) \<and>
      reconcile (Call GoogleStrategy env2 ''ya29.c'' None ann) st1 = (st2, Inr u2) \<and>
      user_id u2 = user_id u1 \<and> lastLogin u1 = 1000 \<and> lastLogin u2 = 2000"
    using g1 g2 g3 g6 by (intro exI conjI)
  have H: "\<exists>st1 u1 st2 u2.
      reconcile (Call GitHubStrategy env2 ''gho_b'' None octo) [(''u1'', ann_user)] = (st1, Inr u1) \<and>
      reconcile (Call GitHubStrategy env3 ''gho_d'' None octo) st1 = (st2, Inr u2) \<and>
      user_id u2 = user_id u1 \<and> lastLogin u1 = 2001 \<and> lastLogin u2 = 3000"
    using h1 h2 h3 h6 by (intro exI conjI)
  from a G H show ?thesis by (intro conjI)
qed

text \<open>
  C2 as stated fails. Ann logs in twice with Google and the clock is set back between
  the two calls: the id is the same and lastLogin decreases. And a Google profile with
  no \<open>emails\<close> yields no user, the first time or the second.
\<close>

theorem lastLogin_follows_clock:
  "reconcile (Call GoogleStrategy env2 ''ya29.a'' None ann) users_empty =
     ([(''u2'', ann_user\<lparr>user_id := ''u2'', createdAt := 2000, lastLogin := 2001\<rparr>)],
      Inr (ann_user\<lparr>user_id := ''u2'', createdAt := 2000, lastLogin := 2001\<rparr>)) \<and>
   reconcile (Call GoogleStrategy env1 ''ya29.a'' None ann)
       [(''u2'', ann_user\<lparr>user_id := ''u2'', createdAt := 2000, lastLogin := 2001\<rparr>)] =
     ([(''u2'', ann_user\<lparr>user_id := ''u2'', createdAt := 2000, lastLogin := 1000\<rparr>)],
      Inr (ann_user\<lparr>user_id := ''u2'', createdAt := 2000, lastLogin := 1000\<rparr>)) \<and>
   \<not> lastLogin (ann_user\<lparr>user_id := ''u2'', createdAt := 2000, lastLogin := 2001\<rparr>)
       \<le> lastLogin (ann_user\<lparr>user_id := ''u2'', createdAt := 2000, lastLogin := 1000\<rparr>) \<and>
   reconcile (Call GoogleStrategy env1 ''ya29.a'' None octo) users_empty = (users_empty, Inl TypeError) \<and>
   reconcile (Call GoogleStrategy env2 ''ya29.a'' None octo) users_empty = (users_empty, Inl TypeError)"
  by (simp add: example_defs)

section \<open>Session codec\<close>

lemma users_get_iff: "distinct (map fst st) \<Longrightarrow> users_get st k = Some u \<longleftrightarrow> (k, u) \<in> set st"
  by (induction st) (force split: if_splits)+

lemma users_get_removed: "users_get (filter (\<lambda>kv. fst kv \<noteq> k) st) k = None"
  by (induction st) auto

lemma stored_under_id:
  assumes "users_get (run_calls cs users_empty) k = Some u"
  shows "user_id u = k"
proof -
  have "keys_ok (run_calls cs users_empty)"
    using reachable_inv by (simp add: users_inv_def)
  moreover have "(k, u) \<in> set (run_calls cs users_empty)"
    using assms by (rule users_get_in_set)
  ultimately show ?thesis unfolding keys_ok_def by blast
qed

text \<open>
  C7. For a user \<open>u\<close> that the Map holds after any sequence of callbacks,
  \<open>serializeUser\<close> gives the key it is stored under and \<open>deserializeUser\<close> of that
  key gives \<open>u\<close> back, field for field. For a key the Map does not hold, and so for a
  key whose entry has been removed, \<open>deserializeUser\<close> calls back with no error and
  \<open>undefined\<close>.
\<close>

theorem codec_roundtrip_tombstone:
  "(users_get (run_calls cs users_empty) k = Some u \<longrightarrow>
      serializeUser u = Inr k \<and> deserializeUser (run_calls cs users_empty) k = Inr (Some u)) \<and>
   (users_get st k = None \<longrightarrow> deserializeUser st k = Inr None) \<and>
   deserializeUser (filter (\<lambda>kv. fst kv \<noteq> k) st) k = Inr None"
  by (simp add: serializeUser_def deserializeUser_def stored_under_id users_get_removed)

theorem codec_roundtrip_tombstone_witness:
  "users_get (run_calls two_logins users_empty) ''u2'' = Some octo_user \<and>
   serializeUser octo_user = Inr ''u2'' \<and>
   deserializeUser (run_calls two_logins users_empty) ''u2'' = Inr (Some octo_user) \<and>
   users_get [(''u1'', ann_user)] ''u2'' = None \<and>
   deserializeUser [(''u1'', ann_user)] ''u2'' = Inr None \<and>
   deserializeUser (filter (\<lambda>kv. fst kv \<noteq> ''u2'') (run_calls two_logins users_empty)) ''u2'' = Inr None"
proof -
  have a: "users_get (run_calls two_logins users_empty) ''u2'' = Some octo_user"
    by (simp add: two_logins_run)
  have b: "users_get [(''u1'', ann_user)] ''u2'' = None" by simp
  from codec_roundtrip_tombstone [of two_logins "''u2''" octo_user "[(''u1'', ann_user)]"]
       codec_roundtrip_tombstone [of two_logins "''u2''" octo_user "run_calls two_logins users_empty"]
       a b
  show ?thesis by blast
qed

section \<open>The same subject id under the two providers\<close>

lemma keys_grow: "fst ` set st \<subseteq> fst ` set (fst (reconcile c st))"
proof (cases c)
  case (Call s e at rt p)
  show ?thesis
  proof (cases "find (\<lambda>u. link_of s u = profile_id p) (users_values st)")
    case (Some u0)
    have "set (map fst (assign_found (\<lambda>u. link_of s u = profile_id p) (touch e at) st)) = set (map fst st)"
      by (simp only: keys_assign_found)
    then show ?thesis unfolding Call reconcile_existing [OF Some] by simp
  next
    case None
    show ?thesis
    proof (cases "snd (reconcile c st)")
      case (Inl err)
      then have "reconcile (Call s e at rt p) st = (fst (reconcile c st), Inl err)"
        unfolding Call by (metis prod.collapse)
      from reconcile_failed [OF this] show ?thesis by simp
    next
      case (Inr u)
      then have "reconcile (Call s e at rt p) st = (fst (reconcile c st), Inr u)"
        unfolding Call by (metis prod.collapse)
      from reconcile_created [OF None this]
      have "set (map fst (fst (reconcile c st))) = set (map fst (users_set st (randomUUID e) u))"
        by simp
      then show ?thesis by (auto simp: keys_users_set split: if_splits)
    qed
  qed
qed

lemma reconcile_stored:
  assumes inv: "keys_ok st" and r: "reconcile (Call s e at rt p) st = (st', Inr u)"
  shows "(user_id u, u) \<in> set st' \<and> link_of s u = profile_id p"
proof (cases "find (\<lambda>u. link_of s u = profile_id p) (users_values st)")
  case (Some u0)
  let ?P = "\<lambda>u. link_of s u = profile_id p"
  from r have st': "st' = assign_found ?P (touch e at) st" and u: "u = touch e at u0"
    by (simp_all add: reconcile_existing [OF Some])
  have "keys_ok st \<Longrightarrow> find ?P (users_values st) = Some u0 \<Longrightarrow>
        (user_id u0, touch e at u0) \<in> set (assign_found ?P (touch e at) st)"
    by (induction st) (auto simp: users_values_def keys_ok_def split: if_splits)
  with inv Some find_Some_values [OF Some] show ?thesis by (simp add: st' u)
next
  case None
  from reconcile_created [OF None r] have st': "st' = users_set st (randomUUID e) u"
    and i: "user_id u = randomUUID e" and l: "link_of s u = profile_id p" by simp_all
  have "(randomUUID e, u) \<in> set (users_set st (randomUUID e) u)"
    by (induction st) auto
  then show ?thesis by (simp add: st' i l)
qed

text \<open>
  C8. On a Map reached by any sequence of callbacks, a callback of one strategy for
  subject id \<open>s\<close> followed by a callback of the other strategy for the same \<open>s\<close>,
  both returning a user, return users with different ids, both stored in the
  resulting Map. The id that \<open>crypto.randomUUID()\<close> gives the second call is taken
  not to be a key of the Map already.
\<close>

theorem cross_provider_distinct:
  assumes first: "reconcile (Call sa e1 at1 rt1 p1) (run_calls cs users_empty) = (st1, Inr u1)"
    and second: "reconcile (Call sb e2 at2 rt2 p2) st1 = (st2, Inr u2)"
    and providers: "sa \<noteq> sb"
    and subject: "profile_id p1 = Some s" "profile_id p2 = Some s"
    and fresh: "randomUUID e2 \<notin> fst ` set st1"
  shows "user_id u1 \<noteq> user_id u2 \<and>
         user_id u1 \<in> fst ` set st2 \<and> users_get st2 (user_id u2) = Some u2"
proof -
  let ?st = "run_calls cs users_empty"
  have inv1: "users_inv st1"
    using reconcile_inv [OF reachable_inv, of "Call sa e1 at1 rt1 p1" cs] first by simp
  then have inv2: "users_inv st2"
    using reconcile_inv [of st1 "Call sb e2 at2 rt2 p2"] second by simp
  have k0: "keys_ok ?st" using reachable_inv by (simp add: users_inv_def)
  have k1: "keys_ok st1" and o1: "one_provider st1" using inv1 by (simp_all add: users_inv_def)
  have k2: "keys_ok st2" using inv2 by (simp add: users_inv_def)
  from reconcile_stored [OF k0 first] subject(1)
  have m1: "(user_id u1, u1) \<in> set st1" and l1: "link_of sa u1 = Some s" by simp_all
  from reconcile_stored [OF k1 second] subject(2)
  have m2: "(user_id u2, u2) \<in> set st2" and l2: "link_of sb u2 = Some s" by simp_all
  have "user_id u1 \<noteq> user_id u2"
  proof (cases "find (\<lambda>u. link_of sb u = profile_id p2) (users_values st1)")
    case None
    from reconcile_created [OF None second] have "user_id u2 = randomUUID e2" by simp
    with fresh m1 show ?thesis by force
  next
    case (Some u0)
    from second have u2: "u2 = touch e2 at2 u0" by (simp add: reconcile_existing [OF Some])
    from find_Some_values [OF Some] obtain k where k: "(k, u0) \<in> set st1"
      and l0: "link_of sb u0 = Some s" using subject(2) by auto
    from k k1 have idk: "user_id u0 = k" unfolding keys_ok_def by blast
    show ?thesis
    proof
      assume "user_id u1 = user_id u2"
      then have "user_id u1 = k" using u2 idk by simp
      with m1 k k1 have "u1 = u0"
        unfolding keys_ok_def by (metis eq_key_imp_eq_value)
      with l1 l0 have "googleId u0 = Some s \<and> githubId u0 = Some s"
        using providers by (cases sa; cases sb) simp_all
      with o1 k show False unfolding one_provider_def by fastforce
    qed
  qed
  moreover have "user_id u1 \<in> fst ` set st2"
    using keys_grow [of st1 "Call sb e2 at2 rt2 p2"] second m1 by force
  moreover have "users_get st2 (user_id u2) = Some u2"
    using m2 k2 by (simp add: users_get_iff keys_ok_def)
  ultimately show ?thesis by simp
qed

theorem cross_provider_distinct_witness:
  "reconcile (Call GoogleStrategy env1 ''ya29.a'' None ann) (run_calls [] users_empty) =
     ([(''u1'', ann_user)], Inr ann_user) \<and>
   reconcile (Call GitHubStrategy env2 ''gho_b'' None octo) [(''u1'', ann_user)] =
     ([(''u1'', ann_user), (''u2'', octo_user)], Inr octo_user) \<and>
   GoogleStrategy \<noteq> GitHubStrategy \<and>
   profile_id ann = Some ''123'' \<and> profile_id octo = Some ''123'' \<and>
   randomUUID env2 \<notin> fst ` set [(''u1'', ann_user)] \<and>
   user_id ann_user \<noteq> user_id octo_user \<and>
   user_id ann_user \<in> fst ` set [(''u1'', ann_user), (''u2'', octo_user)] \<and>
   users_get [(''u1'', ann_user), (''u2'', octo_user)] (user_id octo_user) = Some octo_user"
proof -
  have a: "reconcile (Call GoogleStrategy env1 ''ya29.a'' None ann) (run_calls [] users_empty) =
     ([(''u1'', ann_user)], Inr ann_user)"
    by (simp add: example_defs)
  have b: "reconcile (Call GitHubStrategy env2 ''gho_b'' None octo) [(''u1'', ann_user)] =
     ([(''u1'', ann_user), (''u2'', octo_user)], Inr octo_user)"
    by (simp add: example_defs)
  have c: "GoogleStrategy \<noteq> GitHubStrategy" by simp
  have d: "profile_id ann = Some ''123''" "profile_id octo = Some ''123''"
    by (simp_all add: ann_def octo_def)
  have f: "randomUUID env2 \<notin> fst ` set [(''u1'', ann_user)]" by (simp add: env2_def)
  show ?thesis
    using a b c d f cross_provider_distinct [OF a b c d f] by blast
qed

section \<open>A returning user\<close>

lemma users_get_assign_found_proj:
  "(\<And>u. g (f u) = g u) \<Longrightarrow>
   map_option g (users_get (assign_found P f st) k) = map_option g (users_get st k)"
  by (induction st) auto

text \<open>
  C5, as the code has it. When the lookup of a callback finds a user, the callback
  returns that user with \<open>lastLogin\<close> and \<open>accessToken\<close> assigned and nothing else:
  the email, name and avatar of the returned user and of every stored user are what
  they were, whatever the new profile supplies, empty or not.
\<close>

theorem existing_user_fields_kept:
  assumes "find (\<lambda>u. link_of s u = profile_id p) (users_values st) = Some u0"
  shows "\<exists>st' u. reconcile (Call s e at rt p) st = (st', Inr u) \<and>
           u = u0\<lparr>lastLogin := date1 e, accessToken := at\<rparr> \<and>
           email u = email u0 \<and> name u = name u0 \<and> avatar u = avatar u0 \<and>
           (\<forall>k. map_option (\<lambda>v. (email v, name v, avatar v)) (users_get st' k) =
                map_option (\<lambda>v. (email v, name v, avatar v)) (users_get st k))"
  unfolding reconcile_existing [OF assms]
  by (simp add: users_get_assign_found_proj) (simp add: touch_def)

theorem existing_user_fields_kept_witness:
  "find (\<lambda>u. link_of GoogleStrategy u = profile_id ann_renamed) (users_values [(''u1'', ann_user)])
     = Some ann_user \<and>
   (\<exists>st' u. reconcile (Call GoogleStrategy env2 ''ya29.c'' None ann_renamed) [(''u1'', ann_user)]
               = (st', Inr u) \<and>
           u = ann_user\<lparr>lastLogin := date1 env2, accessToken := ''ya29.c''\<rparr> \<and>
           email u = email ann_user \<and> name u = name ann_user \<and> avatar u = avatar ann_user \<and>
           (\<forall>k. map_option (\<lambda>v. (email v, name v, avatar v)) (users_get st' k) =
                map_option (\<lambda>v. (email v, name v, avatar v)) (users_get [(''u1'', ann_user)] k)))"
proof -
  have a: "find (\<lambda>u. link_of GoogleStrategy u = profile_id ann_renamed)
             (users_values [(''u1'', ann_user)]) = Some ann_user"
    by (simp add: users_values_def ann_user_def ann_renamed_def)
  show ?thesis
    using a existing_user_fields_kept [OF a, of env2 "''ya29.c''" None] by blast
qed

text \<open>
  C5 as stated fails: Ann logs in again with Google, and the profile now supplies
  a new non-empty display name, email and photo; the stored user keeps the old ones.
\<close>

theorem existing_user_not_refreshed:
  "displayName ann_renamed = Some ''Annabel'' \<and>
   emails ann_renamed = Some [''new@x.com''] \<and>
   photos ann_renamed = Some [''https://x.com/new.png''] \<and>
   reconcile (Call GoogleStrategy env2 ''ya29.c'' None ann_renamed) [(''u1'', ann_user)] =
     ([(''u1'', ann_user\<lparr>lastLogin := 2000, accessToken := ''ya29.c''\<rparr>)],
      Inr (ann_user\<lparr>lastLogin := 2000, accessToken := ''ya29.c''\<rparr>)) \<and>
   name (ann_user\<lparr>lastLogin := 2000, accessToken := ''ya29.c''\<rparr>) = Some ''Ann'' \<and>
   email (ann_user\<lparr>lastLogin := 2000, accessToken := ''ya29.c''\<rparr>) = Some ''a@x.com'' \<and>
   avatar (ann_user\<lparr>lastLogin := 2000, accessToken := ''ya29.c''\<rparr>) = ''https://x.com/ann.png''"
  by (simp add: example_defs ann_renamed_def)

section \<open>Profiles that lack optional fields\<close>

text \<open>
  C3. A profile with no \<open>emails\<close> and no display name: the Google callback ends in
  \<open>done(error, null)\<close> with a TypeError and stores nothing, where the GitHub callback
  stores \<open>null\<close> for the email and the login handle for the name. A profile with no
  \<open>photos\<close> fails in both callbacks, and the Google callback leaves the name
  \<open>undefined\<close> when the profile has no display name.
\<close>

theorem missing_optional_fields:
  "google_verify env1 ''ya29.a'' None octo users_empty = (users_empty, Inl TypeError) \<and>
   github_verify env2 ''gho_b'' None octo users_empty = ([(''u2'', octo_user)], Inr octo_user) \<and>
   google_verify env1 ''ya29.a'' None (ann\<lparr>photos := None\<rparr>) users_empty
     = (users_empty, Inl TypeError) \<and>
   github_verify env2 ''gho_b'' None (octo\<lparr>photos := None\<rparr>) users_empty
     = (users_empty, Inl TypeError) \<and>
   snd (google_verify env1 ''ya29.a'' None (ann\<lparr>displayName := None, username := Some ''ann''\<rparr>)
          users_empty)
     = Inr (ann_user\<lparr>name := None\<rparr>)"
  by (simp add: example_defs)

section \<open>The bearer-token gate\<close>

lemma split_space_nospace: "CHR '' '' \<notin> set w \<Longrightarrow> split_space w = [w]"
  by (induction w) auto

lemma split_space_append:
  "CHR '' '' \<notin> set w \<Longrightarrow> split_space (w @ CHR '' '' # r) = w # split_space r"
  by (induction w) auto

text \<open>
  C4, as the code has it. Whatever error \<open>jwt.verify\<close> calls back with, the response is
  the same: for a non-empty header whose token is reported expired and a non-empty
  header whose token is rejected with any error, status 403 and the body
  \<open>{ error: 'Token non valido' }\<close>.
\<close>

theorem rejection_same_for_any_error:
  assumes "h1 \<noteq> []" and "h2 \<noteq> []"
    and "jwt_verify (js_index (split_space h1) 1) secret = Inl TokenExpiredError"
    and "jwt_verify (js_index (split_space h2) 1) secret = Inl e"
  shows "authenticateJWT jwt_verify secret (Some h1) = Status 403 ''Token non valido'' \<and>
         authenticateJWT jwt_verify secret (Some h2) = Status 403 ''Token non valido''"
  using assms by (simp add: authenticateJWT_def)

theorem rejection_same_for_any_error_witness:
  "''Bearer old.jwt'' \<noteq> [] \<and> ''Bearer forged.jwt'' \<noteq> [] \<and>
   example_verify (js_index (split_space ''Bearer old.jwt'') 1) ''s3cret'' = Inl TokenExpiredError \<and>
   example_verify (js_index (split_space ''Bearer forged.jwt'') 1) ''s3cret'' = Inl JsonWebTokenError \<and>
   authenticateJWT example_verify ''s3cret'' (Some ''Bearer old.jwt'') = Status 403 ''Token non valido'' \<and>
   authenticateJWT example_verify ''s3cret'' (Some ''Bearer forged.jwt'') = Status 403 ''Token non valido''"
proof -
  have a: "''Bearer old.jwt'' \<noteq> []" "''Bearer forged.jwt'' \<noteq> []" by simp_all
  have b: "example_verify (js_index (split_space ''Bearer old.jwt'') 1) ''s3cret'' = Inl TokenExpiredError"
    by (simp add: js_index_def example_verify_def)
  have c: "example_verify (js_index (split_space ''Bearer forged.jwt'') 1) ''s3cret'' = Inl JsonWebTokenError"
    by (simp add: js_index_def example_verify_def)
  show ?thesis
    using a b c
      rejection_same_for_any_error [of "''Bearer old.jwt''" "''Bearer forged.jwt''" example_verify
        "''s3cret''" JsonWebTokenError]
    by blast
qed

text \<open>
  C4 as stated fails: an expired token and a forged one get the same response.
\<close>

theorem expired_indistinguishable:
  "example_verify (Some ''old.jwt'') ''s3cret'' = Inl TokenExpiredError \<and>
   example_verify (Some ''forged.jwt'') ''s3cret'' = Inl JsonWebTokenError \<and>
   authenticateJWT example_verify ''s3cret'' (Some ''Bearer old.jwt'') =
   authenticateJWT example_verify ''s3cret'' (Some ''Bearer forged.jwt'')"
  by (simp add: authenticateJWT_def js_index_def example_verify_def)

text \<open>
  C6, as the code has it. A request with no Authorization header, or with an empty
  one, is answered 401; a request with a non-empty header whose token fails
  verification is answered 403, which is not the answer to a missing header.
\<close>

theorem missing_401_invalid_403:
  "(authorization = None \<or> authorization = Some [] \<longrightarrow>
      authenticateJWT jwt_verify secret authorization = Status 401 ''Token di accesso richiesto'') \<and>
   (h \<noteq> [] \<and> jwt_verify (js_index (split_space h) 1) secret = Inl e \<longrightarrow>
      authenticateJWT jwt_verify secret (Some h) = Status 403 ''Token non valido'' \<and>
      authenticateJWT jwt_verify secret (Some h) \<noteq> authenticateJWT jwt_verify secret None)"
  by (auto simp: authenticateJWT_def)

theorem missing_401_invalid_403_witness:
  "authenticateJWT example_verify ''s3cret'' None = Status 401 ''Token di accesso richiesto'' \<and>
   ''Bearer forged.jwt'' \<noteq> [] \<and>
   example_verify (js_index (split_space ''Bearer forged.jwt'') 1) ''s3cret'' = Inl JsonWebTokenError \<and>
   authenticateJWT example_verify ''s3cret'' (Some ''Bearer forged.jwt'') = Status 403 ''Token non valido'' \<and>
   authenticateJWT example_verify ''s3cret'' (Some ''Bearer forged.jwt'') \<noteq>
     authenticateJWT example_verify ''s3cret'' None"
proof -
  have a: "''Bearer forged.jwt'' \<noteq> []" by simp
  have b: "example_verify (js_index (split_space ''Bearer forged.jwt'') 1) ''s3cret'' = Inl JsonWebTokenError"
    by (simp add: js_index_def example_verify_def)
  show ?thesis
    using a b
      missing_401_invalid_403 [of None example_verify "''s3cret''" "''Bearer forged.jwt''"
        JsonWebTokenError]
    by blast
qed

text \<open>
  C6 as stated fails: an Authorization header that is present and empty carries no
  token that verifies, and is answered 401 like a missing header.
\<close>

theorem empty_header_is_401:
  "example_verify (js_index (split_space []) 1) ''s3cret'' = Inl JsonWebTokenError \<and>
   authenticateJWT example_verify ''s3cret'' (Some []) = Status 401 ''Token di accesso richiesto'' \<and>
   authenticateJWT example_verify ''s3cret'' (Some []) = authenticateJWT example_verify ''s3cret'' None"
  by (simp add: authenticateJWT_def js_index_def example_verify_def)

text \<open>
  C10, as the code has it. The scheme is not looked at: a header made of any word
  without a space, one space and a token without a space is authorized when the
  token verifies. A non-empty header with no space passes \<open>undefined\<close> to
  \<open>jwt.verify\<close> and is answered 403 when that is rejected. An empty header is
  answered 401.
\<close>

theorem scheme_not_checked:
  "(CHR '' '' \<notin> set scheme \<and> CHR '' '' \<notin> set token \<and> jwt_verify (Some token) secret = Inr user \<longrightarrow>
      authenticateJWT jwt_verify secret (Some (scheme @ '' '' @ token)) = Next user) \<and>
   (h \<noteq> [] \<and> CHR '' '' \<notin> set h \<and> jwt_verify None secret = Inl e \<longrightarrow>
      authenticateJWT jwt_verify secret (Some h) = Status 403 ''Token non valido'') \<and>
   authenticateJWT jwt_verify secret (Some []) = Status 401 ''Token di accesso richiesto''"
  by (simp add: authenticateJWT_def js_index_def split_space_append split_space_nospace)

theorem scheme_not_checked_witness:
  "CHR '' '' \<notin> set ''Basic'' \<and> CHR '' '' \<notin> set ''good.jwt'' \<and>
   example_verify (Some ''good.jwt'') ''s3cret'' = Inr ''ann'' \<and>
   authenticateJWT example_verify ''s3cret'' (Some (''Basic'' @ '' '' @ ''good.jwt'')) = Next ''ann'' \<and>
   ''Bearer'' \<noteq> [] \<and> CHR '' '' \<notin> set ''Bearer'' \<and>
   example_verify None ''s3cret'' = Inl JsonWebTokenError \<and>
   authenticateJWT example_verify ''s3cret'' (Some ''Bearer'') = Status 403 ''Token non valido''"
proof -
  have a: "CHR '' '' \<notin> set ''Basic''" "CHR '' '' \<notin> set ''good.jwt''"
    "example_verify (Some ''good.jwt'') ''s3cret'' = Inr ''ann''"
    by (simp_all add: example_verify_def)
  have b: "''Bearer'' \<noteq> []" "CHR '' '' \<notin> set ''Bearer''"
    "example_verify None ''s3cret'' = Inl JsonWebTokenError"
    by (simp_all add: example_verify_def)
  show ?thesis
    using a b
      scheme_not_checked [of "''Basic''" "''good.jwt''" example_verify "''s3cret''" "''ann''"
        "''Bearer''" JsonWebTokenError]
    by blast
qed

text \<open>
  C10 as stated fails: the empty header is present and has no second part, and it
  is answered as a missing credential.
\<close>

theorem empty_header_not_403:
  "js_index (split_space []) 1 = None \<and>
   example_verify None ''s3cret'' = Inl JsonWebTokenError \<and>
   authenticateJWT example_verify ''s3cret'' (Some []) \<noteq> Status 403 ''Token non valido''"
  by (simp add: authenticateJWT_def js_index_def example_verify_def)

end
